theory Spec2Isabelle
  imports Main "HOL-Library.Sublist" "HOL-Library.AList" "HOL-Library.Multiset"
begin

section \<open>Variant records and their identity\<close>

text \<open>
  A record yielded by the VCF reader. The four named fields are the ones
  \<^verbatim>\<open>read_vcf_variants\<close> looks at; every other field of the record (quality, filter,
  genotypes, ...) lives in the extension part of the record scheme.
\<close>

record variant =
  CHROM :: string
  POS :: int
  REF :: string
  ALT :: "string list"

type_synonym variant_id = "string \<times> int \<times> string \<times> string"

text \<open>
  \<^verbatim>\<open>alt = variant.ALT[0] if variant.ALT else ""\<close>: the index is only evaluated on a
  non-empty list.
\<close>

definition first_alt :: "string list \<Rightarrow> string" where
  "first_alt alts = (case alts of [] \<Rightarrow> [] | a # _ \<Rightarrow> a)"

definition variant_id :: "'m variant_scheme \<Rightarrow> variant_id" where
  "variant_id v = (CHROM v, POS v, REF v, first_alt (ALT v))"

section \<open>Strings, paths and labels\<close>

text \<open>\<^verbatim>\<open>s.endswith(suf)\<close>.\<close>

definition endswith :: "string \<Rightarrow> string \<Rightarrow> bool" where
  "endswith s suf = suffix suf s"

text \<open>
  \<^verbatim>\<open>os.path.basename\<close> on a POSIX path: what follows the last slash (the whole string
  when there is none).
\<close>

definition basename :: "string \<Rightarrow> string" where
  "basename p = rev (takeWhile (\<lambda>c. c \<noteq> CHR ''/'') (rev p))"

text \<open>
  \<^verbatim>\<open>s.replace(old, new)\<close>: one pass from the left, every non-overlapping occurrence of
  \<open>old\<close> replaced, the scan resuming after the occurrence. With an empty \<open>old\<close> Python
  puts \<open>new\<close> before every character and at the end.
\<close>

fun replace_scan :: "string \<Rightarrow> string \<Rightarrow> string \<Rightarrow> string" where
  "replace_scan old new [] = []"
| "replace_scan old new (c # cs) =
     (if old \<noteq> [] \<and> prefix old (c # cs)
      then new @ replace_scan old new (drop (length old) (c # cs))
      else c # replace_scan old new cs)"

definition str_replace :: "string \<Rightarrow> string \<Rightarrow> string \<Rightarrow> string" where
  "str_replace s old new =
     (if old = [] then new @ concat (map (\<lambda>c. c # new) s) else replace_scan old new s)"

text \<open>
  \<^verbatim>\<open>labels = [os.path.basename(f).replace('.vcf', '') for f in vcf_files]\<close>, the same
  line in \<^verbatim>\<open>create_venn_diagram\<close> and \<^verbatim>\<open>create_upset_plot\<close>.
\<close>

definition label_of :: "string \<Rightarrow> string" where
  "label_of f = str_replace (basename f) ''.vcf'' []"

definition labels_of :: "string list \<Rightarrow> string list" where
  "labels_of vcf_files = map label_of vcf_files"

text \<open>
  \<^verbatim>\<open>os.path.join(a, b)\<close> for two POSIX components.
\<close>

definition path_join :: "string \<Rightarrow> string \<Rightarrow> string" where
  "path_join a b =
     (if prefix ''/'' b then b
      else if a = [] \<or> endswith a ''/'' then a @ b
      else a @ ''/'' @ b)"

section \<open>The outside world: reader, file system, output\<close>

text \<open>
  The VCF reader is a library. What it does for a path is a parameter of the model:
  constructing the reader either raises (\<open>OpenError\<close> with the exception's text) or gives
  an iterator; each step of the iterator yields a record or raises (\<open>ParseError\<close>), and
  the end of the list is the end of the iteration.
\<close>

datatype 'm read_step = Record "'m variant_scheme" | ParseError string

datatype 'm vcf_source = OpenError string | Reader "'m read_step list"

text \<open>
  The exceptions that can leave a function: the two that the program's own indexing can
  raise, and whatever a library call raises, by name.
\<close>

datatype py_error = IndexError | KeyError | LibraryError string

text \<open>
  The label-keyed dictionary \<^verbatim>\<open>variant_sets\<close>, in insertion order: assigning to a key
  that is present replaces its value in place, a new key goes to the end
  (\<^const>\<open>AList.update\<close>).
\<close>

type_synonym variant_sets = "(string \<times> variant_id set) list"

text \<open>
  Everything the program does to the outside, in order. \<open>Stdout\<close> and \<open>Stderr\<close> are
  printed lines; \<open>OpenVCF\<close> is the call \<^verbatim>\<open>VCF(path)\<close>; the remaining events are the
  calls into the plotting libraries with the arguments that matter, recorded when the
  call is made. \<open>Traceback\<close> is the interpreter's report of an exception nobody caught.
\<close>

datatype event =
    Stdout string
  | Stderr string
  | OpenVCF string
  | Figure nat nat
  | Venn2 "variant_id set list" "string list"
  | Venn3 "variant_id set list" "string list"
  | FromContents variant_sets
  | Plot "(string list \<times> nat) list"
  | Title string
  | Suptitle string
  | Savefig string
  | Show
  | Traceback py_error

section \<open>Reading one file\<close>

text \<open>
  The body of the \<^verbatim>\<open>for\<close> loop of \<^verbatim>\<open>read_vcf_variants\<close>, with the set built so far.
  The result is the set when the loop is left and the text of the exception that ended
  it, if one did.
\<close>

fun read_records :: "'m read_step list \<Rightarrow> variant_id set \<Rightarrow> variant_id set \<times> string option" where
  "read_records [] variants = (variants, None)"
| "read_records (Record v # rest) variants = read_records rest (insert (variant_id v) variants)"
| "read_records (ParseError e # rest) variants = (variants, Some e)"

text \<open>
  \<^verbatim>\<open>read_vcf_variants\<close>: \<^verbatim>\<open>variants = set()\<close> is created before the \<^verbatim>\<open>try\<close>, and
  \<^verbatim>\<open>return variants\<close> follows the handler, which only prints.
\<close>

definition read_vcf_variants :: "(string \<Rightarrow> 'm vcf_source) \<Rightarrow> string \<Rightarrow> variant_id set \<times> event list" where
  "read_vcf_variants fs vcf_file =
     (case fs vcf_file of
        OpenError e \<Rightarrow>
          ({}, [OpenVCF vcf_file, Stderr (''Error reading '' @ vcf_file @ '': '' @ e)])
      | Reader steps \<Rightarrow>
          (case read_records steps {} of
             (variants, None) \<Rightarrow> (variants, [OpenVCF vcf_file])
           | (variants, Some e) \<Rightarrow>
               (variants, [OpenVCF vcf_file, Stderr (''Error reading '' @ vcf_file @ '': '' @ e)])))"

text \<open>
  \<^verbatim>\<open>for vcf_file, label in zip(vcf_files, labels): variant_sets[label] = read_vcf_variants(vcf_file)\<close>
\<close>

fun fill_variant_sets ::
  "(string \<Rightarrow> 'm vcf_source) \<Rightarrow> (string \<times> string) list \<Rightarrow> variant_sets \<Rightarrow> variant_sets \<times> event list" where
  "fill_variant_sets fs [] variant_sets = (variant_sets, [])"
| "fill_variant_sets fs ((vcf_file, label) # rest) variant_sets =
     (case read_vcf_variants fs vcf_file of
        (variants, ev) \<Rightarrow>
          (case fill_variant_sets fs rest (AList.update label variants variant_sets) of
             (variant_sets', ev') \<Rightarrow> (variant_sets', ev @ ev')))"

text \<open>\<^verbatim>\<open>variant_sets[label]\<close>: a missing key raises.\<close>

definition dict_get :: "variant_sets \<Rightarrow> string \<Rightarrow> py_error + variant_id set" where
  "dict_get variant_sets label =
     (case map_of variant_sets label of None \<Rightarrow> Inl KeyError | Some variants \<Rightarrow> Inr variants)"


section \<open>Rendering\<close>

text \<open>
  The plotting libraries are not part of the sources, and their calls are not guarded
  by any handler. Whether a call raises is a parameter of the model: \<open>lib c\<close> is the
  exception that the call \<open>c\<close> (with these arguments) raises, if it raises. Only the
  calls that receive data or a path are asked: \<^verbatim>\<open>venn2\<close>, \<^verbatim>\<open>venn3\<close>,
  \<^verbatim>\<open>from_contents\<close>, \<^verbatim>\<open>plot\<close> and \<^verbatim>\<open>plt.savefig\<close>. The calls that receive
  constants only (\<^verbatim>\<open>plt.figure\<close>, \<^verbatim>\<open>plt.title\<close>, \<^verbatim>\<open>plt.suptitle\<close>,
  \<^verbatim>\<open>plt.show\<close>) and \<^verbatim>\<open>print\<close> are taken to return.
\<close>

type_synonym library = "event \<Rightarrow> py_error option"

fun may_raise :: "event \<Rightarrow> bool" where
  "may_raise (Venn2 _ _) = True"
| "may_raise (Venn3 _ _) = True"
| "may_raise (FromContents _) = True"
| "may_raise (Plot _) = True"
| "may_raise (Savefig _) = True"
| "may_raise _ = False"

definition raises :: "library \<Rightarrow> event \<Rightarrow> py_error option" where
  "raises lib c = (if may_raise c then lib c else None)"

text \<open>
  A straight-line sequence of calls: each call is recorded when it is made; a call
  that raises ends the sequence, and the exception is the second component.
\<close>

fun perform :: "library \<Rightarrow> event list \<Rightarrow> event list \<times> py_error option" where
  "perform lib [] = ([], None)"
| "perform lib (c # cs) =
     (case raises lib c of
        Some e \<Rightarrow> ([c], Some e)
      | None \<Rightarrow> (case perform lib cs of (ev, err) \<Rightarrow> (c # ev, err)))"

declare perform.simps(2) [simp del]

text \<open>
  \<^verbatim>\<open>if output_file: plt.savefig(output_file, ...); print(f"... saved to {output_file}")\<close>
  \<^verbatim>\<open>else: plt.show()\<close>, the tail of both renderers, as the calls to make; \<open>what\<close> is the
  name of the diagram in the printed line. \<^verbatim>\<open>None\<close> and the empty string are both
  false in the test.
\<close>

definition save_or_show :: "string \<Rightarrow> string option \<Rightarrow> event list" where
  "save_or_show what output_file =
     (case output_file of
        None \<Rightarrow> [Show]
      | Some p \<Rightarrow> if p \<noteq> [] then [Savefig p, Stdout (what @ '' saved to '' @ p)] else [Show])"

text \<open>
  Modelled from the spec: \<^verbatim>\<open>from_contents\<close> and \<^verbatim>\<open>plot\<close> belong to the upsetplot
  library, which is not part of the sources. The specification's words for what they
  compute when they return: for every non-empty membership combination (a non-empty
  selection of the labels), the number of identities whose presence/absence pattern over
  the sets is exactly that combination; the plotted rows are the combinations that
  occur (up to \<open>2 ^ N - 1\<close> of them), sorted by descending cardinality. The \<open>Plot\<close>
  event of a trace carries these rows, that is what the call plots if it returns.
\<close>

definition membership :: "variant_sets \<Rightarrow> variant_id \<Rightarrow> string list" where
  "membership variant_sets x = map fst (filter (\<lambda>(label, variants). x \<in> variants) variant_sets)"

definition combinations :: "variant_sets \<Rightarrow> string list list" where
  "combinations variant_sets = filter (\<lambda>c. c \<noteq> []) (subseqs (map fst variant_sets))"

definition union_all :: "variant_sets \<Rightarrow> variant_id set" where
  "union_all variant_sets = \<Union> (set (map snd variant_sets))"

definition combination_count :: "variant_sets \<Rightarrow> string list \<Rightarrow> nat" where
  "combination_count variant_sets c =
     card (Set.filter (\<lambda>x. membership variant_sets x = c) (union_all variant_sets))"

definition upset_rows :: "variant_sets \<Rightarrow> (string list \<times> nat) list" where
  "upset_rows variant_sets =
     sort_key (\<lambda>(c, n). - int n)
       (filter (\<lambda>(c, n). 0 < n)
          (map (\<lambda>c. (c, combination_count variant_sets c)) (combinations variant_sets)))"

text \<open>
  \<^verbatim>\<open>create_upset_plot\<close>. The result is the trace of the call and the exception that left
  it, if any.
\<close>

definition create_upset_plot ::
  "library \<Rightarrow> (string \<Rightarrow> 'm vcf_source) \<Rightarrow> string list \<Rightarrow> string option
     \<Rightarrow> event list \<times> py_error option" where
  "create_upset_plot lib fs vcf_files output_file =
     (let labels = labels_of vcf_files in
      case fill_variant_sets fs (zip vcf_files labels) [] of
        (variant_sets, ev) \<Rightarrow>
          (case perform lib
                  ([FromContents variant_sets, Figure 12 8, Plot (upset_rows variant_sets),
                    Suptitle ''Variant Concordance Between VCF Files'']
                   @ save_or_show ''UpSet plot'' output_file) of
             (ev', err) \<Rightarrow> (ev @ ev', err)))"

text \<open>
  \<^verbatim>\<open>create_venn_diagram\<close>. \<^verbatim>\<open>labels[0]\<close>, \<^verbatim>\<open>labels[1]\<close>, \<^verbatim>\<open>labels[2]\<close> are read
  only under the test on \<^verbatim>\<open>len(vcf_files)\<close>, which is the length of \<open>labels\<close> too. The
  dictionary lookups are the arguments of \<^verbatim>\<open>venn2\<close>/\<^verbatim>\<open>venn3\<close>, evaluated after
  \<^verbatim>\<open>plt.figure\<close> and before the call.
\<close>

definition create_venn_diagram ::
  "library \<Rightarrow> (string \<Rightarrow> 'm vcf_source) \<Rightarrow> string list \<Rightarrow> string option
     \<Rightarrow> event list \<times> py_error option" where
  "create_venn_diagram lib fs vcf_files output_file =
     (let labels = labels_of vcf_files in
      case fill_variant_sets fs (zip vcf_files labels) [] of
        (variant_sets, ev) \<Rightarrow>
          if length vcf_files = 2 then
            (case (dict_get variant_sets (labels ! 0), dict_get variant_sets (labels ! 1)) of
               (Inr a, Inr b) \<Rightarrow>
                 (case perform lib
                         ([Figure 10 8, Venn2 [a, b] labels,
                           Title ''Variant Concordance Between VCF Files'']
                          @ save_or_show ''Venn diagram'' output_file) of
                    (ev', err) \<Rightarrow> (ev @ ev', err))
             | _ \<Rightarrow> (ev @ [Figure 10 8], Some KeyError))
          else if length vcf_files = 3 then
            (case (dict_get variant_sets (labels ! 0), dict_get variant_sets (labels ! 1),
                   dict_get variant_sets (labels ! 2)) of
               (Inr a, Inr b, Inr c) \<Rightarrow>
                 (case perform lib
                         ([Figure 10 8, Venn3 [a, b, c] labels,
                           Title ''Variant Concordance Between VCF Files'']
                          @ save_or_show ''Venn diagram'' output_file) of
                    (ev', err) \<Rightarrow> (ev @ ev', err))
             | _ \<Rightarrow> (ev @ [Figure 10 8], Some KeyError))
          else
            (case create_upset_plot lib fs vcf_files output_file of
               (ev', err) \<Rightarrow>
                 (ev @ [Figure 10 8,
                        Stdout ''Venn diagrams are not recommended for more than 3 sets. Using UpSet plot instead.'']
                     @ ev', err)))"

text \<open>\<^verbatim>\<open>analyze_vcf_concordance\<close>.\<close>

definition analyze_vcf_concordance ::
  "library \<Rightarrow> (string \<Rightarrow> 'm vcf_source) \<Rightarrow> string list \<Rightarrow> string option
     \<Rightarrow> event list \<times> py_error option" where
  "analyze_vcf_concordance lib fs vcf_files output_file =
     (if length vcf_files < 2 then
        ([Stdout ''Please provide at least 2 VCF files for comparison.''], None)
      else if length vcf_files \<le> 3 then create_venn_diagram lib fs vcf_files output_file
      else create_upset_plot lib fs vcf_files output_file)"

section \<open>The command line\<close>

text \<open>
  The \<^verbatim>\<open>while i < len(sys.argv)\<close> loop of the main block, with its three variables.
  \<^verbatim>\<open>sys.argv[i+1]\<close> is read without a test: past the end it raises.
\<close>

function scan_args ::
  "string list \<Rightarrow> nat \<Rightarrow> string list \<Rightarrow> string option \<Rightarrow> py_error + (string list \<times> string option)" where
  "scan_args argv i vcf_files output_file =
     (if i < length argv then
        (if endswith (argv ! i) ''.vcf'' \<or> endswith (argv ! i) ''.vcf.gz'' then
           scan_args argv (i + 1) (vcf_files @ [argv ! i]) output_file
         else if argv ! i = ''--output'' then
           (if i + 1 < length argv then scan_args argv (i + 2) vcf_files (Some (argv ! (i + 1)))
            else Inl IndexError)
         else scan_args argv (i + 1) vcf_files output_file)
      else Inr (vcf_files, output_file))"
  by pat_completeness auto
termination
  by (relation "measure (\<lambda>(argv, i, vcf_files, output_file). length argv - i)") auto

declare scan_args.simps [simp del]

text \<open>
  The main block. \<open>isdir\<close> is \<^verbatim>\<open>os.path.isdir\<close> on the machine the program runs on.
  The result is the trace and the exit status: \<^verbatim>\<open>sys.exit(1)\<close> after a usage line, 1
  with a traceback when an exception reaches the top, 0 when the block runs to its end.
\<close>

definition usage :: string where
  "usage = ''Usage: python vcf_concordance.py file1.vcf file2.vcf [file3.vcf ...] [--output output.png]''"

definition main ::
  "library \<Rightarrow> (string \<Rightarrow> 'm vcf_source) \<Rightarrow> (string \<Rightarrow> bool) \<Rightarrow> string list
     \<Rightarrow> event list \<times> nat" where
  "main lib fs isdir argv =
     (if length argv < 3 then ([Stdout usage], 1)
      else
        case scan_args argv 1 [] None of
          Inl e \<Rightarrow> ([Traceback e], 1)
        | Inr (vcf_files, output_file) \<Rightarrow>
            if length vcf_files < 2 then
              ([Stdout ''Please provide at least 2 VCF files for comparison.''], 1)
            else
              (let output_file' =
                     (case output_file of
                        None \<Rightarrow> None
                      | Some p \<Rightarrow>
                          if p \<noteq> [] \<and> isdir p then Some (path_join p ''vcf_concordance.png'')
                          else Some p)
               in case analyze_vcf_concordance lib fs vcf_files output_file' of
                    (ev, None) \<Rightarrow> (ev, 0)
                  | (ev, Some e) \<Rightarrow> (ev @ [Traceback e], 1)))"

section \<open>Observations on traces\<close>

text \<open>
  Classes of events, used to state what a run did: the events of reading a file, the
  calls that open a file, the calls into the pairwise (two/three-circle) drawing
  library, and the calls into the multi-set drawing library.
\<close>

fun is_read_event :: "event \<Rightarrow> bool" where
  "is_read_event (OpenVCF _) = True"
| "is_read_event (Stderr _) = True"
| "is_read_event _ = False"

fun is_open :: "event \<Rightarrow> bool" where
  "is_open (OpenVCF _) = True"
| "is_open _ = False"

fun is_pairwise :: "event \<Rightarrow> bool" where
  "is_pairwise (Venn2 _ _) = True"
| "is_pairwise (Venn3 _ _) = True"
| "is_pairwise _ = False"

fun is_multiset :: "event \<Rightarrow> bool" where
  "is_multiset (FromContents _) = True"
| "is_multiset (Plot _) = True"
| "is_multiset _ = False"



text \<open>
  The dictionary and the trace that the loop over \<^verbatim>\<open>zip(vcf_files, labels)\<close> leaves,
  started from the empty dictionary as both renderers do.
\<close>

definition variant_sets_of :: "(string \<Rightarrow> 'm vcf_source) \<Rightarrow> string list \<Rightarrow> variant_sets" where
  "variant_sets_of fs vcf_files = fst (fill_variant_sets fs (zip vcf_files (labels_of vcf_files)) [])"

definition read_events :: "(string \<Rightarrow> 'm vcf_source) \<Rightarrow> string list \<Rightarrow> event list" where
  "read_events fs vcf_files = snd (fill_variant_sets fs (zip vcf_files (labels_of vcf_files)) [])"


text \<open>The calls of the two renderers, in the order in which they are to be made.\<close>

definition upset_calls :: "variant_sets \<Rightarrow> string option \<Rightarrow> event list" where
  "upset_calls variant_sets out =
     [FromContents variant_sets, Figure 12 8, Plot (upset_rows variant_sets),
      Suptitle ''Variant Concordance Between VCF Files'']
     @ save_or_show ''UpSet plot'' out"

definition venn_calls :: "event \<Rightarrow> string option \<Rightarrow> event list" where
  "venn_calls venn out =
     [Figure 10 8, venn, Title ''Variant Concordance Between VCF Files'']
     @ save_or_show ''Venn diagram'' out"

section \<open>Example inputs\<close>

text \<open>
  A small file system: \<^verbatim>\<open>a.vcf\<close> breaks after its first record, \<^verbatim>\<open>b.vcf\<close> has two
  records, \<^verbatim>\<open>x/a.vcf\<close> and \<^verbatim>\<open>y/a.vcf\<close> have one record each, and nothing else can be
  opened. The only directory is \<^verbatim>\<open>out\<close>.
\<close>

definition rec_5T :: variant where
  "rec_5T = \<lparr>CHROM = ''1'', POS = 5, REF = ''A'', ALT = [''T'']\<rparr>"

definition rec_5TC :: variant where
  "rec_5TC = \<lparr>CHROM = ''1'', POS = 5, REF = ''A'', ALT = [''T'', ''C'']\<rparr>"

definition rec_7 :: variant where
  "rec_7 = \<lparr>CHROM = ''1'', POS = 7, REF = ''G'', ALT = []\<rparr>"

definition rec_9 :: variant where
  "rec_9 = \<lparr>CHROM = ''2'', POS = 9, REF = ''C'', ALT = [''G'']\<rparr>"

definition example_fs :: "string \<Rightarrow> unit vcf_source" where
  "example_fs p =
     (if p = ''a.vcf'' then Reader [Record rec_5T, ParseError ''bad line'']
      else if p = ''b.vcf'' then Reader [Record rec_5TC, Record rec_7]
      else if p = ''x/a.vcf'' then Reader [Record rec_7]
      else if p = ''y/a.vcf'' then Reader [Record rec_9]
      else OpenError ''no such file'')"

text \<open>
  Two plotting libraries: one whose calls all return, and one in which \<^verbatim>\<open>plot\<close> raises
  an index error and \<^verbatim>\<open>plt.savefig\<close> cannot write.
\<close>

definition quiet_lib :: library where
  "quiet_lib c = None"

fun failing_lib :: library where
  "failing_lib (Plot rows) = Some IndexError"
| "failing_lib (Savefig p) = Some (LibraryError ''FileNotFoundError'')"
| "failing_lib c = None"


definition example_isdir :: "string \<Rightarrow> bool" where
  "example_isdir p = (p = ''out'')"


section \<open>Auxiliary facts\<close>

subsection \<open>Reading and filling the dictionary\<close>

lemma read_records_prefix:
  "read_records (map Record vs @ rest) acc = read_records rest (acc \<union> variant_id ` set vs)"
  by (induction vs arbitrary: acc) auto



lemma read_vcf_variants_opens: "filter is_open (snd (read_vcf_variants fs f)) = [OpenVCF f]"
  by (auto simp: read_vcf_variants_def split: vcf_source.splits prod.splits option.splits)

lemma read_vcf_variants_events: "e \<in> set (snd (read_vcf_variants fs f)) \<Longrightarrow> is_read_event e"
  by (auto simp: read_vcf_variants_def split: vcf_source.splits prod.splits option.splits)

lemma fill_Cons:
  "fill_variant_sets fs ((f, l) # rest) d =
     (fst (fill_variant_sets fs rest (AList.update l (fst (read_vcf_variants fs f)) d)),
      snd (read_vcf_variants fs f)
        @ snd (fill_variant_sets fs rest (AList.update l (fst (read_vcf_variants fs f)) d)))"
  by (simp split: prod.splits)

lemma fill_opens:
  "filter is_open (snd (fill_variant_sets fs ps d)) = map (OpenVCF \<circ> fst) ps"
proof (induction ps arbitrary: d)
  case Nil
  show ?case by simp
next
  case (Cons p ps)
  obtain f l where p: "p = (f, l)" by (cases p)
  show ?case
    unfolding p fill_Cons by (simp add: read_vcf_variants_opens Cons.IH)
qed

lemma fill_read_events:
  "e \<in> set (snd (fill_variant_sets fs ps d)) \<Longrightarrow> is_read_event e"
proof (induction ps arbitrary: d)
  case Nil
  then show ?case by simp
next
  case (Cons p ps)
  obtain f l where p: "p = (f, l)" by (cases p)
  from Cons.prems show ?case
    unfolding p fill_Cons using Cons.IH read_vcf_variants_events by auto
qed

lemma fill_keys:
  "fst ` set (fst (fill_variant_sets fs ps d)) = fst ` set d \<union> snd ` set ps"
proof (induction ps arbitrary: d)
  case Nil
  show ?case by simp
next
  case (Cons p ps)
  obtain f l where p: "p = (f, l)" by (cases p)
  show ?case
    unfolding p fill_Cons by (simp add: Cons.IH dom_update)
qed




lemma dict_get_filled:
  assumes "l \<in> snd ` set ps"
  shows "\<exists>S. dict_get (fst (fill_variant_sets fs ps d)) l = Inr S"
proof -
  have "l \<in> fst ` set (fst (fill_variant_sets fs ps d))"
    using assms by (simp add: fill_keys)
  then have "map_of (fst (fill_variant_sets fs ps d)) l \<noteq> None"
    by (simp add: map_of_eq_None_iff)
  then show ?thesis
    by (auto simp: dict_get_def split: option.splits)
qed


subsection \<open>Sequences of calls\<close>

lemma perform_Cons:
  "perform lib (c # cs) =
     (case raises lib c of
        Some e \<Rightarrow> ([c], Some e)
      | None \<Rightarrow> (c # fst (perform lib cs), snd (perform lib cs)))"
  by (simp add: perform.simps(2) split: option.splits prod.splits)

lemma perform_subset: "set (fst (perform lib cs)) \<subseteq> set cs"
  by (induction cs) (auto simp: perform_Cons split: option.splits)

lemma perform_first: "c \<in> set (fst (perform lib (c # cs)))"
  by (simp add: perform_Cons split: option.splits)

lemma perform_second:
  "\<not> may_raise c \<Longrightarrow> d \<in> set (fst (perform lib (c # d # cs)))"
  by (simp add: perform_Cons raises_def split: option.splits)


lemma perform_no_raise: "\<forall>c \<in> set cs. raises lib c = None \<Longrightarrow> perform lib cs = (cs, None)"
  by (induction cs) (auto simp: perform_Cons)

lemma perform_raised:
  "snd (perform lib cs) = Some e \<Longrightarrow> \<exists>c \<in> set cs. may_raise c \<and> lib c = Some e"
  by (induction cs)
     (auto simp: perform_Cons raises_def split: option.splits if_splits)

subsection \<open>The shape of the renderers' traces\<close>

lemma read_event_kinds:
  "is_read_event e \<Longrightarrow> \<not> is_pairwise e \<and> \<not> is_multiset e \<and> e \<noteq> Stdout s \<and> e \<noteq> Savefig q"
  by (cases e) auto

lemma read_events_kinds:
  "e \<in> set (read_events fs files) \<Longrightarrow>
     \<not> is_pairwise e \<and> \<not> is_multiset e \<and> e \<noteq> Stdout s \<and> e \<noteq> Savefig q"
  unfolding read_events_def using fill_read_events read_event_kinds by blast

lemma read_events_opens: "filter is_open (read_events fs files) = map OpenVCF files"
  unfolding read_events_def labels_of_def
  by (simp add: fill_opens map_fst_zip_take flip: map_map)

lemma save_or_show_kinds:
  "e \<in> set (save_or_show what out) \<Longrightarrow> \<not> is_pairwise e \<and> \<not> is_multiset e \<and> \<not> is_open e"
  by (auto simp: save_or_show_def split: option.splits if_splits)

lemma create_upset_plot_trace:
  "create_upset_plot lib fs files out =
     (read_events fs files @ fst (perform lib (upset_calls (variant_sets_of fs files) out)),
      snd (perform lib (upset_calls (variant_sets_of fs files) out)))"
  by (simp add: create_upset_plot_def Let_def upset_calls_def read_events_def
        variant_sets_of_def case_prod_unfold)

lemma dict_get_label:
  assumes "i < length files"
  shows "\<exists>S. dict_get (variant_sets_of fs files) (labels_of files ! i) = Inr S"
proof -
  have "labels_of files ! i \<in> snd ` set (zip files (labels_of files))"
    using assms by (force simp: labels_of_def set_zip)
  then show ?thesis
    unfolding variant_sets_of_def by (rule dict_get_filled)
qed

lemma create_venn_diagram_two:
  assumes "length files = 2"
  shows "\<exists>a b. dict_get (variant_sets_of fs files) (labels_of files ! 0) = Inr a
             \<and> dict_get (variant_sets_of fs files) (labels_of files ! 1) = Inr b
             \<and> create_venn_diagram lib fs files out =
                 (read_events fs files
                    @ fst (perform lib (venn_calls (Venn2 [a, b] (labels_of files)) out)),
                  snd (perform lib (venn_calls (Venn2 [a, b] (labels_of files)) out)))"
proof -
  obtain a where a: "dict_get (variant_sets_of fs files) (labels_of files ! 0) = Inr a"
    using dict_get_label [of 0 files fs] assms by auto
  obtain b where b: "dict_get (variant_sets_of fs files) (labels_of files ! 1) = Inr b"
    using dict_get_label [of 1 files fs] assms by auto
  have "create_venn_diagram lib fs files out =
          (read_events fs files
             @ fst (perform lib (venn_calls (Venn2 [a, b] (labels_of files)) out)),
           snd (perform lib (venn_calls (Venn2 [a, b] (labels_of files)) out)))"
    using assms a b
    by (simp add: create_venn_diagram_def Let_def venn_calls_def read_events_def
          variant_sets_of_def case_prod_unfold)
  with a b show ?thesis by blast
qed

lemma create_venn_diagram_three:
  assumes "length files = 3"
  shows "\<exists>a b c. dict_get (variant_sets_of fs files) (labels_of files ! 0) = Inr a
             \<and> dict_get (variant_sets_of fs files) (labels_of files ! 1) = Inr b
             \<and> dict_get (variant_sets_of fs files) (labels_of files ! 2) = Inr c
             \<and> create_venn_diagram lib fs files out =
                 (read_events fs files
                    @ fst (perform lib (venn_calls (Venn3 [a, b, c] (labels_of files)) out)),
                  snd (perform lib (venn_calls (Venn3 [a, b, c] (labels_of files)) out)))"
proof -
  obtain a where a: "dict_get (variant_sets_of fs files) (labels_of files ! 0) = Inr a"
    using dict_get_label [of 0 files fs] assms by auto
  obtain b where b: "dict_get (variant_sets_of fs files) (labels_of files ! 1) = Inr b"
    using dict_get_label [of 1 files fs] assms by auto
  obtain c where c: "dict_get (variant_sets_of fs files) (labels_of files ! 2) = Inr c"
    using dict_get_label [of 2 files fs] assms by auto
  have "create_venn_diagram lib fs files out =
          (read_events fs files
             @ fst (perform lib (venn_calls (Venn3 [a, b, c] (labels_of files)) out)),
           snd (perform lib (venn_calls (Venn3 [a, b, c] (labels_of files)) out)))"
    using assms a b c
    by (simp add: create_venn_diagram_def Let_def venn_calls_def read_events_def
          variant_sets_of_def case_prod_unfold)
  with a b c show ?thesis by blast
qed


text \<open>
  Every run of the analysis on two or more files is the reads followed by the calls of
  one renderer, as far as they get.
\<close>

lemma analyze_shape:
  assumes "2 \<le> length files"
  shows "\<exists>calls. analyze_vcf_concordance lib fs files out
                  = (read_events fs files @ fst (perform lib calls), snd (perform lib calls))
           \<and> ((\<exists>a b. length files = 2 \<and> calls = venn_calls (Venn2 [a, b] (labels_of files)) out
                      \<and> dict_get (variant_sets_of fs files) (labels_of files ! 0) = Inr a
                      \<and> dict_get (variant_sets_of fs files) (labels_of files ! 1) = Inr b)
              \<or> (\<exists>a b c. length files = 3
                      \<and> calls = venn_calls (Venn3 [a, b, c] (labels_of files)) out
                      \<and> dict_get (variant_sets_of fs files) (labels_of files ! 0) = Inr a
                      \<and> dict_get (variant_sets_of fs files) (labels_of files ! 1) = Inr b
                      \<and> dict_get (variant_sets_of fs files) (labels_of files ! 2) = Inr c)
              \<or> (4 \<le> length files \<and> calls = upset_calls (variant_sets_of fs files) out))"
proof -
  consider "length files = 2" | "length files = 3" | "4 \<le> length files"
    using assms by linarith
  then show ?thesis
  proof cases
    case 1
    then show ?thesis
      using create_venn_diagram_two [OF 1, of fs lib out]
      by (auto simp: analyze_vcf_concordance_def)
  next
    case 2
    then show ?thesis
      using create_venn_diagram_three [OF 2, of fs lib out]
      by (auto simp: analyze_vcf_concordance_def)
  next
    case 3
    then show ?thesis
      by (auto simp: analyze_vcf_concordance_def create_upset_plot_trace)
  qed
qed

subsection \<open>The argument scan\<close>

text \<open>The number of \<^verbatim>\<open>--output\<close> tokens at the end of a list of arguments.\<close>

lemma takeWhile_rev_all: "\<forall>x \<in> set xs. P x \<Longrightarrow> takeWhile P (rev xs) = rev xs"
  by simp

lemma trailing_Cons_other:
  "\<not> P a \<Longrightarrow> length (takeWhile P (rev (a # xs))) = length (takeWhile P (rev xs))"
  by (cases "\<forall>x \<in> set xs. P x") (simp_all add: takeWhile_append takeWhile_rev_all)

lemma trailing_Cons_pair:
  "P a \<Longrightarrow> even (length (takeWhile P (rev (a # b # xs)))) = even (length (takeWhile P (rev xs)))"
  by (cases "\<forall>x \<in> set xs. P x") (simp_all add: takeWhile_append takeWhile_rev_all)

lemma not_recognized_output:
  "\<not> endswith ''--output'' ''.vcf''" "\<not> endswith ''--output'' ''.vcf.gz''"
  by (simp_all add: endswith_def suffix_to_prefix)

lemma scan_args_fails_iff:
  "scan_args argv i vcf_files output_file = Inl e \<longleftrightarrow>
     e = IndexError \<and> odd (length (takeWhile (\<lambda>a. a = ''--output'') (rev (drop i argv))))"
proof (induction argv i vcf_files output_file rule: scan_args.induct)
  case (1 argv i vcf_files output_file)
  show ?case
  proof (cases "i < length argv")
    case False
    then show ?thesis by (simp add: scan_args.simps [of argv i])
  next
    case True
    then have d: "drop i argv = argv ! i # drop (Suc i) argv"
      by (simp add: Cons_nth_drop_Suc)
    consider (recognized) "endswith (argv ! i) ''.vcf'' \<or> endswith (argv ! i) ''.vcf.gz''"
      | (out_last) "argv ! i = ''--output''" "\<not> i + 1 < length argv"
      | (out_val) "argv ! i = ''--output''" "i + 1 < length argv"
      | (other) "\<not> (endswith (argv ! i) ''.vcf'' \<or> endswith (argv ! i) ''.vcf.gz'')"
          "argv ! i \<noteq> ''--output''"
      by blast
    then show ?thesis
    proof cases
      case recognized
      then have "argv ! i \<noteq> ''--output''"
        using not_recognized_output by auto
      with True recognized "1.IH"(1) show ?thesis
        by (simp add: scan_args.simps [of argv i] d trailing_Cons_other del: rev.simps)
    next
      case out_last
      then have "drop (Suc i) argv = []" by simp
      with True out_last show ?thesis
        using not_recognized_output
        by (auto simp: scan_args.simps [of argv i] d)
    next
      case out_val
      then have d2: "drop (Suc i) argv = argv ! Suc i # drop (Suc (Suc i)) argv"
        by (simp add: Cons_nth_drop_Suc)
      have nf: "\<not> (endswith (argv ! i) ''.vcf'' \<or> endswith (argv ! i) ''.vcf.gz'')"
        using out_val(1) not_recognized_output by simp
      have "scan_args argv i vcf_files output_file
              = scan_args argv (i + 2) vcf_files (Some (argv ! (i + 1)))"
        using True out_val nf by (simp add: scan_args.simps [of argv i])
      moreover have "odd (length (takeWhile (\<lambda>a. a = ''--output'') (rev (drop i argv))))
          = odd (length (takeWhile (\<lambda>a. a = ''--output'') (rev (drop (i + 2) argv))))"
        unfolding d d2 using out_val(1)
        by (simp add: trailing_Cons_pair del: rev.simps)
      ultimately show ?thesis
        using "1.IH"(2) True out_val nf by simp
    next
      case other
      with True "1.IH"(3) show ?thesis
        by (simp add: scan_args.simps [of argv i] d trailing_Cons_other del: rev.simps)
    qed
  qed
qed

lemma scan_args_files_length:
  "scan_args argv i vcf_files output_file = Inr (files, out) \<Longrightarrow>
     length files \<le> length vcf_files + (length argv - i)"
proof (induction argv i vcf_files output_file rule: scan_args.induct)
  case (1 argv i vcf_files output_file)
  show ?case
  proof (cases "i < length argv")
    case False
    with "1.prems" show ?thesis by (simp add: scan_args.simps [of argv i])
  next
    case True
    show ?thesis
      using True "1.prems" "1.IH"
      by (auto simp: scan_args.simps [of argv i] split: if_splits)
  qed
qed


subsection \<open>The main block\<close>

lemma main_scan_returns:
  assumes "scan_args argv 1 [] None = Inr (files, out)"
  shows "length argv < 3 \<Longrightarrow> main lib fs isdir argv = ([Stdout usage], 1)"
    and "3 \<le> length argv \<Longrightarrow> length files < 2 \<Longrightarrow>
           main lib fs isdir argv
             = ([Stdout ''Please provide at least 2 VCF files for comparison.''], 1)"
    and "2 \<le> length files \<Longrightarrow>
           main lib fs isdir argv =
             (case analyze_vcf_concordance lib fs files
                    (case out of None \<Rightarrow> None
                     | Some p \<Rightarrow> if p \<noteq> [] \<and> isdir p
                                 then Some (path_join p ''vcf_concordance.png'') else Some p) of
                (ev, None) \<Rightarrow> (ev, 0)
              | (ev, Some e) \<Rightarrow> (ev @ [Traceback e], 1))"
proof -
  show "length argv < 3 \<Longrightarrow> main lib fs isdir argv = ([Stdout usage], 1)"
    by (simp add: main_def)
  show "3 \<le> length argv \<Longrightarrow> length files < 2 \<Longrightarrow>
           main lib fs isdir argv
             = ([Stdout ''Please provide at least 2 VCF files for comparison.''], 1)"
    using assms by (simp add: main_def)
  assume n: "2 \<le> length files"
  have "length files \<le> length argv - 1"
    using scan_args_files_length [OF assms] by simp
  with n have "\<not> length argv < 3" by simp
  then show "main lib fs isdir argv =
             (case analyze_vcf_concordance lib fs files
                    (case out of None \<Rightarrow> None
                     | Some p \<Rightarrow> if p \<noteq> [] \<and> isdir p
                                 then Some (path_join p ''vcf_concordance.png'') else Some p) of
                (ev, None) \<Rightarrow> (ev, 0)
              | (ev, Some e) \<Rightarrow> (ev @ [Traceback e], 1))"
    using assms n by (simp add: main_def Let_def del: One_nat_def)
qed

text \<open>The trace and the status of a run in terms of the analysis it makes.\<close>

lemma finish_trace:
  "fst (case r of (ev, None) \<Rightarrow> (ev, 0::nat) | (ev, Some e) \<Rightarrow> (ev @ [Traceback e], Suc 0))
     = fst r @ (case snd r of None \<Rightarrow> [] | Some e \<Rightarrow> [Traceback e])"
  "snd (case r of (ev, None) \<Rightarrow> (ev, 0::nat) | (ev, Some e) \<Rightarrow> (ev @ [Traceback e], Suc 0))
     = (if snd r = None then 0 else 1)"
  by (cases r; cases "snd r"; simp)+

subsection \<open>What the analysis draws, opens and prints\<close>

lemma venn_calls_kinds:
  "is_pairwise v \<Longrightarrow> e \<in> set (venn_calls v out) \<Longrightarrow> \<not> is_multiset e \<and> \<not> is_open e"
  by (cases v) (auto simp: venn_calls_def save_or_show_def split: option.splits if_splits)

lemma upset_calls_kinds:
  "e \<in> set (upset_calls d out) \<Longrightarrow> \<not> is_pairwise e \<and> \<not> is_open e"
  by (auto simp: upset_calls_def save_or_show_def split: option.splits if_splits)

lemma venn_call_made: "v \<in> set (fst (perform lib (venn_calls v out)))"
  by (simp add: venn_calls_def perform_second)

lemma upset_call_made: "FromContents d \<in> set (fst (perform lib (upset_calls d out)))"
  by (simp add: upset_calls_def perform_first)

lemma analyze_draws:
  "list_ex is_pairwise (fst (analyze_vcf_concordance lib fs files out))
      \<longleftrightarrow> length files = 2 \<or> length files = 3"
  "list_ex is_multiset (fst (analyze_vcf_concordance lib fs files out)) \<longleftrightarrow> 4 \<le> length files"
proof -
  have rd: "\<not> is_pairwise e \<and> \<not> is_multiset e" if "e \<in> set (read_events fs files)" for e
    using read_events_kinds [OF that] by simp
  have both: "(list_ex is_pairwise (fst (analyze_vcf_concordance lib fs files out))
      \<longleftrightarrow> length files = 2 \<or> length files = 3)
    \<and> (list_ex is_multiset (fst (analyze_vcf_concordance lib fs files out)) \<longleftrightarrow> 4 \<le> length files)"
  proof (cases "2 \<le> length files")
    case False
    then show ?thesis by (simp add: analyze_vcf_concordance_def)
  next
    case True
    obtain calls where tr: "analyze_vcf_concordance lib fs files out
                  = (read_events fs files @ fst (perform lib calls), snd (perform lib calls))"
      and sh: "(\<exists>a b. length files = 2 \<and> calls = venn_calls (Venn2 [a, b] (labels_of files)) out)
              \<or> (\<exists>a b c. length files = 3
                      \<and> calls = venn_calls (Venn3 [a, b, c] (labels_of files)) out)
              \<or> (4 \<le> length files \<and> calls = upset_calls (variant_sets_of fs files) out)"
      using analyze_shape [OF True, of lib fs out] by blast
    have sub: "set (fst (perform lib calls)) \<subseteq> set calls"
      by (rule perform_subset)
    from sh consider
        (two) a b where "length files = 2" "calls = venn_calls (Venn2 [a, b] (labels_of files)) out"
      | (three) a b c where "length files = 3"
          "calls = venn_calls (Venn3 [a, b, c] (labels_of files)) out"
      | (more) "4 \<le> length files" "calls = upset_calls (variant_sets_of fs files) out"
      by blast
    then show ?thesis
    proof cases
      case two
      have "Venn2 [a, b] (labels_of files) \<in> set (fst (perform lib calls))"
        unfolding two(2) by (rule venn_call_made)
      then have "\<exists>x \<in> set (fst (perform lib calls)). is_pairwise x"
        by (intro bexI [of _ "Venn2 [a, b] (labels_of files)"]) simp_all
      moreover have "\<not> is_multiset e" if "e \<in> set (fst (perform lib calls))" for e
        using that sub venn_calls_kinds [of "Venn2 [a, b] (labels_of files)" e out] two(2) by auto
      ultimately show ?thesis
        using two(1) rd by (auto simp: tr list_ex_iff)
    next
      case three
      have "Venn3 [a, b, c] (labels_of files) \<in> set (fst (perform lib calls))"
        unfolding three(2) by (rule venn_call_made)
      then have "\<exists>x \<in> set (fst (perform lib calls)). is_pairwise x"
        by (intro bexI [of _ "Venn3 [a, b, c] (labels_of files)"]) simp_all
      moreover have "\<not> is_multiset e" if "e \<in> set (fst (perform lib calls))" for e
        using that sub venn_calls_kinds [of "Venn3 [a, b, c] (labels_of files)" e out] three(2)
        by auto
      ultimately show ?thesis
        using three(1) rd by (auto simp: tr list_ex_iff)
    next
      case more
      have "FromContents (variant_sets_of fs files) \<in> set (fst (perform lib calls))"
        unfolding more(2) by (rule upset_call_made)
      then have "\<exists>x \<in> set (fst (perform lib calls)). is_multiset x"
        by (intro bexI [of _ "FromContents (variant_sets_of fs files)"]) simp_all
      moreover have "\<not> is_pairwise e" if "e \<in> set (fst (perform lib calls))" for e
        using that sub upset_calls_kinds [of e "variant_sets_of fs files" out] more(2) by auto
      ultimately show ?thesis
        using more(1) rd by (auto simp: tr list_ex_iff)
    qed
  qed
  from both show "list_ex is_pairwise (fst (analyze_vcf_concordance lib fs files out))
      \<longleftrightarrow> length files = 2 \<or> length files = 3"
    and "list_ex is_multiset (fst (analyze_vcf_concordance lib fs files out)) \<longleftrightarrow> 4 \<le> length files"
    by simp_all
qed

lemma analyze_opens:
  assumes "2 \<le> length files"
  shows "filter is_open (fst (analyze_vcf_concordance lib fs files out)) = map OpenVCF files"
proof -
  obtain calls where tr: "analyze_vcf_concordance lib fs files out
                  = (read_events fs files @ fst (perform lib calls), snd (perform lib calls))"
    and sh: "(\<exists>a b. calls = venn_calls (Venn2 [a, b] (labels_of files)) out)
              \<or> (\<exists>a b c. calls = venn_calls (Venn3 [a, b, c] (labels_of files)) out)
              \<or> calls = upset_calls (variant_sets_of fs files) out"
    using analyze_shape [OF assms, of lib fs out] by blast
  have "\<not> is_open e" if "e \<in> set calls" for e
    using sh that venn_calls_kinds [of _ e out] upset_calls_kinds [of e _ out] by fastforce
  then have "filter is_open (fst (perform lib calls)) = []"
    using perform_subset [of lib calls] by (auto simp: filter_empty_conv)
  then show ?thesis
    by (simp add: tr read_events_opens)
qed

text \<open>
  No exception of the reader or of the program's own indexing leaves the analysis: one
  that does was raised by a plotting call.
\<close>

lemma analyze_raised:
  assumes "snd (analyze_vcf_concordance lib fs files out) = Some e"
  shows "\<exists>c. may_raise c \<and> lib c = Some e"
proof (cases "2 \<le> length files")
  case False
  with assms show ?thesis by (simp add: analyze_vcf_concordance_def)
next
  case True
  obtain calls where "analyze_vcf_concordance lib fs files out
                  = (read_events fs files @ fst (perform lib calls), snd (perform lib calls))"
    using analyze_shape [OF True, of lib fs out] by blast
  with assms have "snd (perform lib calls) = Some e" by simp
  then show ?thesis
    using perform_raised by blast
qed


subsection \<open>The exit behaviour\<close>

lemma main_analysis:
  assumes "scan_args argv 1 [] None = Inr (files, out)" and "2 \<le> length files"
  shows "\<exists>out'. fst (main lib fs isdir argv)
                  = fst (analyze_vcf_concordance lib fs files out')
                    @ (case snd (analyze_vcf_concordance lib fs files out') of
                         None \<Rightarrow> [] | Some e \<Rightarrow> [Traceback e])
             \<and> snd (main lib fs isdir argv)
                  = (if snd (analyze_vcf_concordance lib fs files out') = None then 0 else 1)
             \<and> out' = (case out of None \<Rightarrow> None
                        | Some p \<Rightarrow> if p \<noteq> [] \<and> isdir p
                                    then Some (path_join p ''vcf_concordance.png'') else Some p)"
  unfolding main_scan_returns(3) [OF assms] by (simp add: finish_trace)

lemma main_opens:
  assumes "scan_args argv 1 [] None = Inr (files, out)" and "2 \<le> length files"
  shows "filter is_open (fst (main lib fs isdir argv)) = map OpenVCF files"
proof -
  obtain out' where "fst (main lib fs isdir argv)
                  = fst (analyze_vcf_concordance lib fs files out')
                    @ (case snd (analyze_vcf_concordance lib fs files out') of
                         None \<Rightarrow> [] | Some e \<Rightarrow> [Traceback e])"
    using main_analysis [OF assms, of lib fs isdir] by blast
  then show ?thesis
    by (simp add: analyze_opens [OF assms(2)] split: option.splits)
qed



subsection \<open>Notes, images and confirmation lines\<close>






subsection \<open>Labels\<close>

lemma replace_scan_no_dot:
  "CHR ''.'' \<notin> set stem \<Longrightarrow>
     replace_scan ''.vcf'' new (stem @ rest) = stem @ replace_scan ''.vcf'' new rest"
  by (induction stem) auto

lemma basename_append:
  assumes "CHR ''/'' \<notin> set name"
  shows "basename (dir @ ''/'' @ name) = name"
proof -
  have "takeWhile (\<lambda>c. c \<noteq> CHR ''/'') (rev name @ CHR ''/'' # rev dir) = rev name"
    using assms by (subst takeWhile_append2) auto
  then show ?thesis
    by (simp add: basename_def)
qed

lemma basename_plain:
  assumes "CHR ''/'' \<notin> set name"
  shows "basename name = name"
proof -
  have a: "\<forall>c \<in> set name. c \<noteq> CHR ''/''"
    using assms by auto
  show ?thesis
    unfolding basename_def takeWhile_rev_all [OF a] by simp
qed

text \<open>
  For a file name without a dot or a slash before the extension, in any directory: the
  plain extension is removed, and of the compressed one \<^verbatim>\<open>.gz\<close> stays.
\<close>

lemma label_of_stem:
  assumes "CHR ''.'' \<notin> set stem" "CHR ''/'' \<notin> set stem"
  shows "label_of (dir @ ''/'' @ stem @ ''.vcf'') = stem"
    and "label_of (dir @ ''/'' @ stem @ ''.vcf.gz'') = stem @ ''.gz''"
    and "label_of (stem @ ''.vcf'') = stem"
    and "label_of (stem @ ''.vcf.gz'') = stem @ ''.gz''"
proof -
  have s1: "CHR ''/'' \<notin> set (stem @ ''.vcf'')" and s2: "CHR ''/'' \<notin> set (stem @ ''.vcf.gz'')"
    using assms(2) by simp_all
  have r1: "replace_scan ''.vcf'' [] (stem @ ''.vcf'') = stem"
    and r2: "replace_scan ''.vcf'' [] (stem @ ''.vcf.gz'') = stem @ ''.gz''"
    using assms(1) by (simp_all add: replace_scan_no_dot)
  show "label_of (dir @ ''/'' @ stem @ ''.vcf'') = stem"
    using basename_append [OF s1, of dir] r1 by (simp add: label_of_def str_replace_def)
  show "label_of (dir @ ''/'' @ stem @ ''.vcf.gz'') = stem @ ''.gz''"
    using basename_append [OF s2, of dir] r2 by (simp add: label_of_def str_replace_def)
  show "label_of (stem @ ''.vcf'') = stem"
    using basename_plain [OF s1] r1 by (simp add: label_of_def str_replace_def)
  show "label_of (stem @ ''.vcf.gz'') = stem @ ''.gz''"
    using basename_plain [OF s2] r2 by (simp add: label_of_def str_replace_def)
qed

subsection \<open>Combination counts\<close>




















subsection \<open>Colliding labels\<close>








section \<open>Properties\<close>

text \<open>
  C1. Every record is mapped to the tuple (chromosome, position, reference allele, first
  alternate allele), the fourth component being the empty string when the record has no
  alternate allele; so two records get the same identity exactly when these four values
  agree, whatever their remaining fields hold.
\<close>

theorem variant_id_four_fields:
  fixes v :: "'m variant_scheme" and w :: "'n variant_scheme"
  shows "variant_id v = (CHROM v, POS v, REF v, (if ALT v = [] then [] else hd (ALT v)))
       \<and> (variant_id v = variant_id w \<longleftrightarrow>
            CHROM v = CHROM w \<and> POS v = POS w \<and> REF v = REF w
            \<and> first_alt (ALT v) = first_alt (ALT w))"
  by (cases "ALT v") (auto simp: variant_id_def first_alt_def)

theorem variant_id_four_fields_witness:
  "variant_id \<lparr>CHROM = ''chr1'', POS = 100, REF = ''A'', ALT = [''T'', ''G''], \<dots> = ''q50''\<rparr>
     = (''chr1'', 100, ''A'', ''T'')
   \<and> variant_id \<lparr>CHROM = ''chr1'', POS = 100, REF = ''A'', ALT = [], \<dots> = ''q50''\<rparr>
     = (''chr1'', 100, ''A'', [])
   \<and> variant_id \<lparr>CHROM = ''chr1'', POS = 100, REF = ''A'', ALT = [''T'', ''G''], \<dots> = ''q50''\<rparr>
     = variant_id \<lparr>CHROM = ''chr1'', POS = 100, REF = ''A'', ALT = [''T''], \<dots> = (7::nat)\<rparr>"
  using variant_id_four_fields
    [of "\<lparr>CHROM = ''chr1'', POS = 100, REF = ''A'', ALT = [''T'', ''G''], \<dots> = ''q50''\<rparr>"
        "\<lparr>CHROM = ''chr1'', POS = 100, REF = ''A'', ALT = [''T''], \<dots> = (7::nat)\<rparr>"]
    variant_id_four_fields
    [of "\<lparr>CHROM = ''chr1'', POS = 100, REF = ''A'', ALT = [], \<dots> = ''q50''\<rparr>"
        "\<lparr>CHROM = ''chr1'', POS = 100, REF = ''A'', ALT = [], \<dots> = ''q50''\<rparr>"]
  by (simp add: first_alt_def variant_id_def)


text \<open>
  C2. Whatever the files contain, whatever output path is given and whatever the
  plotting libraries do, the analysis calls the pairwise (two- or three-circle) drawing
  library exactly when it is given 2 or 3 files and the multi-set drawing library
  exactly when it is given 4 or more: the choice is a function of the count alone, with
  the boundary fixed between 3 and 4.
\<close>

theorem analyze_selects_by_count:
  "(list_ex is_pairwise (fst (analyze_vcf_concordance lib fs files out))
      \<longleftrightarrow> length files = 2 \<or> length files = 3)
   \<and> (list_ex is_multiset (fst (analyze_vcf_concordance lib fs files out))
      \<longleftrightarrow> 4 \<le> length files)"
  by (simp add: analyze_draws)

theorem analyze_selects_by_count_witness:
  "list_ex is_pairwise (fst (analyze_vcf_concordance quiet_lib example_fs [''a.vcf'', ''b.vcf''] None))
   \<and> \<not> list_ex is_multiset
         (fst (analyze_vcf_concordance quiet_lib example_fs [''a.vcf'', ''b.vcf''] None))
   \<and> list_ex is_multiset
        (fst (analyze_vcf_concordance failing_lib example_fs
               [''a.vcf'', ''b.vcf'', ''c.vcf'', ''d.vcf''] (Some ''o.png'')))
   \<and> \<not> list_ex is_pairwise
        (fst (analyze_vcf_concordance failing_lib example_fs
               [''a.vcf'', ''b.vcf'', ''c.vcf'', ''d.vcf''] (Some ''o.png'')))"
  using analyze_selects_by_count [of quiet_lib example_fs "[''a.vcf'', ''b.vcf'']" None]
    analyze_selects_by_count
      [of failing_lib example_fs "[''a.vcf'', ''b.vcf'', ''c.vcf'', ''d.vcf'']" "Some ''o.png''"]
  by simp

text \<open>
  C3 as stated fails: \<^verbatim>\<open>a.vcf\<close> yields one record and then a parse error; the error is
  caught and reported, and the set returned holds the identity of that record.
\<close>

theorem read_vcf_variants_partial_counterexample:
  "example_fs ''a.vcf'' = Reader [Record rec_5T, ParseError ''bad line'']
   \<and> read_vcf_variants example_fs ''a.vcf''
       = ({(''1'', 5, ''A'', ''T'')}, [OpenVCF ''a.vcf'', Stderr ''Error reading a.vcf: bad line''])
   \<and> fst (read_vcf_variants example_fs ''a.vcf'') \<noteq> {}"
  by (simp add: read_vcf_variants_def example_fs_def rec_5T_def variant_id_def first_alt_def)

text \<open>
  C3, amended. When a file cannot be opened, or the reader raises after yielding the
  records \<open>vs\<close>, the error is caught: one diagnostic line naming the file and the error
  goes to the error stream, and the set returned holds exactly the identities of the
  records read before the failure (none when the file could not be opened). A read
  failure does not abort the run: the analysis opens every file it was given, in order,
  and goes on to the drawing calls; an exception that leaves the analysis is one that a
  plotting call raised, never one of the reader.
\<close>

theorem read_vcf_variants_on_failure:
  "(fs f = OpenError e \<longrightarrow>
      read_vcf_variants fs f = ({}, [OpenVCF f, Stderr (''Error reading '' @ f @ '': '' @ e)]))
   \<and> (fs f = Reader (map Record vs @ ParseError e # rest) \<longrightarrow>
      read_vcf_variants fs f
        = (variant_id ` set vs, [OpenVCF f, Stderr (''Error reading '' @ f @ '': '' @ e)]))
   \<and> (2 \<le> length files \<longrightarrow>
      filter is_open (fst (analyze_vcf_concordance lib fs files out)) = map OpenVCF files
      \<and> (list_ex is_pairwise (fst (analyze_vcf_concordance lib fs files out))
         \<or> list_ex is_multiset (fst (analyze_vcf_concordance lib fs files out)))
      \<and> (\<forall>x. snd (analyze_vcf_concordance lib fs files out) = Some x
             \<longrightarrow> (\<exists>c. may_raise c \<and> lib c = Some x)))"
proof (intro conjI impI allI)
  assume "fs f = OpenError e"
  then show "read_vcf_variants fs f = ({}, [OpenVCF f, Stderr (''Error reading '' @ f @ '': '' @ e)])"
    by (simp add: read_vcf_variants_def)
next
  assume "fs f = Reader (map Record vs @ ParseError e # rest)"
  then show "read_vcf_variants fs f
        = (variant_id ` set vs, [OpenVCF f, Stderr (''Error reading '' @ f @ '': '' @ e)])"
    by (simp add: read_vcf_variants_def read_records_prefix)
next
  assume "2 \<le> length files"
  then show "filter is_open (fst (analyze_vcf_concordance lib fs files out)) = map OpenVCF files"
    by (rule analyze_opens)
next
  assume "2 \<le> length files"
  then have "length files = 2 \<or> length files = 3 \<or> 4 \<le> length files"
    by linarith
  then show "list_ex is_pairwise (fst (analyze_vcf_concordance lib fs files out))
         \<or> list_ex is_multiset (fst (analyze_vcf_concordance lib fs files out))"
    by (simp add: analyze_draws)
next
  fix x
  assume "snd (analyze_vcf_concordance lib fs files out) = Some x"
  then show "\<exists>c. may_raise c \<and> lib c = Some x"
    by (rule analyze_raised)
qed

theorem read_vcf_variants_on_failure_witness:
  "read_vcf_variants example_fs ''c.vcf''
     = ({}, [OpenVCF ''c.vcf'', Stderr ''Error reading c.vcf: no such file''])
   \<and> read_vcf_variants example_fs ''a.vcf''
     = ({variant_id rec_5T}, [OpenVCF ''a.vcf'', Stderr ''Error reading a.vcf: bad line''])
   \<and> filter is_open
        (fst (analyze_vcf_concordance quiet_lib example_fs [''a.vcf'', ''c.vcf'', ''b.vcf''] None))
     = [OpenVCF ''a.vcf'', OpenVCF ''c.vcf'', OpenVCF ''b.vcf'']
   \<and> list_ex is_pairwise
        (fst (analyze_vcf_concordance quiet_lib example_fs [''a.vcf'', ''c.vcf'', ''b.vcf''] None))
   \<and> snd (analyze_vcf_concordance quiet_lib example_fs [''a.vcf'', ''c.vcf'', ''b.vcf''] None) = None"
  using read_vcf_variants_on_failure
          [where fs = example_fs and f = "''c.vcf''" and e = "''no such file''" and vs = "[]"
             and rest = "[]" and files = "[''a.vcf'', ''c.vcf'', ''b.vcf'']" and out = None
             and lib = quiet_lib]
        read_vcf_variants_on_failure
          [where fs = example_fs and f = "''a.vcf''" and e = "''bad line''" and vs = "[rec_5T]"
             and rest = "[]" and files = "[''a.vcf'', ''c.vcf'', ''b.vcf'']" and out = None
             and lib = quiet_lib]
        analyze_draws(2) [of quiet_lib example_fs "[''a.vcf'', ''c.vcf'', ''b.vcf'']" None]
  by (simp add: example_fs_def quiet_lib_def)


text \<open>
  C9 as stated fails: in \<^verbatim>\<open>vcf_con.py --output --output\<close> the final token is
  \<^verbatim>\<open>--output\<close>, yet the scan completes normally, because the first \<^verbatim>\<open>--output\<close>
  takes the second as its value and the index moves past it; the program goes on to
  the test on the number of input files.
\<close>

theorem scan_args_output_last_counterexample:
  "last [''vcf_con.py'', ''--output'', ''--output''] = ''--output''
   \<and> scan_args [''vcf_con.py'', ''--output'', ''--output''] 1 [] None = Inr ([], Some ''--output'')
   \<and> main quiet_lib example_fs example_isdir [''vcf_con.py'', ''--output'', ''--output'']
       = ([Stdout ''Please provide at least 2 VCF files for comparison.''], 1)"
  by (simp add: main_def scan_args.simps endswith_def suffix_to_prefix)

text \<open>
  C9, amended. A command line with fewer than two arguments after the program name
  never reaches the scan: the program prints the usage line and exits with status 1. On
  every longer command line the scan runs, and it raises the index error exactly when
  the arguments end in an odd number of consecutive \<^verbatim>\<open>--output\<close> tokens; the program
  then ends with the traceback of that error and status 1, and it ends so in no other
  case. In particular the scan fails when the final argument is \<^verbatim>\<open>--output\<close> and
  the one before it is not, and it completes normally whenever the final argument is
  not \<^verbatim>\<open>--output\<close>, that is whenever every \<^verbatim>\<open>--output\<close> is followed by a token.
\<close>

theorem scan_args_index_error_iff:
  "(length argv < 3 \<longrightarrow> main lib fs isdir argv = ([Stdout usage], 1))
   \<and> (3 \<le> length argv \<longrightarrow>
        (scan_args argv 1 [] None = Inl e \<longleftrightarrow>
           e = IndexError \<and> odd (length (takeWhile (\<lambda>a. a = ''--output'') (rev (tl argv)))))
      \<and> (main lib fs isdir argv = ([Traceback IndexError], 1) \<longleftrightarrow>
           odd (length (takeWhile (\<lambda>a. a = ''--output'') (rev (tl argv)))))
      \<and> (last (tl argv) = ''--output'' \<and> last (butlast (tl argv)) \<noteq> ''--output''
           \<longrightarrow> scan_args argv 1 [] None = Inl IndexError)
      \<and> (last (tl argv) \<noteq> ''--output''
           \<longrightarrow> (\<exists>files out. scan_args argv 1 [] None = Inr (files, out))))"
proof (intro conjI impI)
  let ?P = "\<lambda>a. a = ''--output''"
  show "main lib fs isdir argv = ([Stdout usage], 1)" if "length argv < 3"
    using that by (simp add: main_def)
  have iff: "scan_args argv 1 [] None = Inl x \<longleftrightarrow>
      x = IndexError \<and> odd (length (takeWhile ?P (rev (tl argv))))" for x
    using scan_args_fails_iff [of argv 1 "[]" None x] by (simp add: drop_Suc)
  show "scan_args argv 1 [] None = Inl e \<longleftrightarrow>
      e = IndexError \<and> odd (length (takeWhile ?P (rev (tl argv))))"
    by (rule iff)
  have none: "takeWhile ?P (rev xs) = []" if "xs = [] \<or> last xs \<noteq> ''--output''" for xs
    using that by (cases xs rule: rev_cases) auto
  show "main lib fs isdir argv = ([Traceback IndexError], 1) \<longleftrightarrow>
           odd (length (takeWhile ?P (rev (tl argv))))" if len: "3 \<le> length argv"
  proof (cases "scan_args argv 1 [] None")
    case (Inl x)
    then have "x = IndexError" "odd (length (takeWhile ?P (rev (tl argv))))"
      using iff [of x] by simp_all
    with Inl len show ?thesis by (simp add: main_def)
  next
    case (Inr r)
    obtain files out where r: "r = (files, out)" by (cases r)
    have ev: "\<not> odd (length (takeWhile ?P (rev (tl argv))))"
      using iff [of IndexError] Inr by simp
    have "main lib fs isdir argv \<noteq> ([Traceback IndexError], 1)"
    proof (cases "2 \<le> length files")
      case False
      then show ?thesis
        using main_scan_returns(2) [OF Inr [unfolded r] len, of lib fs isdir] by simp
    next
      case True
      have "filter is_open (fst (main lib fs isdir argv)) = map OpenVCF files"
        by (rule main_opens [OF Inr [unfolded r] True])
      moreover have "map OpenVCF files \<noteq> []"
        using True by auto
      ultimately show ?thesis by auto
    qed
    with ev show ?thesis by simp
  qed
  show "scan_args argv 1 [] None = Inl IndexError"
    if len: "3 \<le> length argv"
      and lst: "last (tl argv) = ''--output'' \<and> last (butlast (tl argv)) \<noteq> ''--output''"
  proof -
    have ne: "tl argv \<noteq> []"
      using len by (cases argv) auto
    then obtain ys y where ys: "tl argv = ys @ [y]"
      by (cases "tl argv" rule: rev_cases) auto
    have y: "y = ''--output''"
      using lst ys by simp
    have "last ys \<noteq> ''--output''"
      using lst ys by simp
    then have "takeWhile ?P (rev ys) = []"
      using none [of ys] by simp
    then have "length (takeWhile ?P (rev (tl argv))) = 1"
      unfolding ys y by simp
    then show ?thesis using iff [of IndexError] by simp
  qed
  show "\<exists>files out. scan_args argv 1 [] None = Inr (files, out)"
    if "last (tl argv) \<noteq> ''--output''"
  proof -
    have "scan_args argv 1 [] None \<noteq> Inl x" for x
      using iff [of x] none [of "tl argv"] that by simp
    then show ?thesis
      by (cases "scan_args argv 1 [] None") auto
  qed
qed

theorem scan_args_index_error_iff_witness:
  "main quiet_lib example_fs example_isdir [''vcf_con.py'', ''--output''] = ([Stdout usage], 1)
   \<and> scan_args [''vcf_con.py'', ''a.vcf'', ''--output''] 1 [] None = Inl IndexError
   \<and> main quiet_lib example_fs example_isdir [''vcf_con.py'', ''a.vcf'', ''--output'']
       = ([Traceback IndexError], 1)
   \<and> main quiet_lib example_fs example_isdir [''vcf_con.py'', ''--output'', ''--output'', ''--output'']
       = ([Traceback IndexError], 1)
   \<and> (\<exists>files out. scan_args [''vcf_con.py'', ''--output'', ''o.png'', ''a.vcf''] 1 [] None
         = Inr (files, out))"
  using scan_args_index_error_iff
      [of "[''vcf_con.py'', ''--output'']" quiet_lib example_fs example_isdir IndexError]
    scan_args_index_error_iff
      [of "[''vcf_con.py'', ''a.vcf'', ''--output'']" quiet_lib example_fs example_isdir IndexError]
    scan_args_index_error_iff
      [of "[''vcf_con.py'', ''--output'', ''--output'', ''--output'']" quiet_lib example_fs
          example_isdir IndexError]
    scan_args_index_error_iff
      [of "[''vcf_con.py'', ''--output'', ''o.png'', ''a.vcf'']" quiet_lib example_fs example_isdir]
  by simp

text \<open>
  C4: the code at the failing inputs. With \<^verbatim>\<open>--output\<close> as the last argument the scan
  raises; the program ends with a traceback and status 1, printing no usage line, whether
  one input file had been recognized or two.
\<close>

theorem main_output_last_traceback:
  "main lib fs isdir [''vcf_con.py'', ''a.vcf'', ''--output''] = ([Traceback IndexError], 1)
   \<and> main lib fs isdir [''vcf_con.py'', ''a.vcf'', ''b.vcf'', ''--output'']
       = ([Traceback IndexError], 1)"
  by (simp add: main_def scan_args.simps endswith_def suffix_to_prefix)










text \<open>
  C6: the code at the failing input. For a plain file the label is the base name
  without \<^verbatim>\<open>.vcf\<close>; for a compressed file only \<^verbatim>\<open>.vcf\<close> is removed from the base
  name, and the label keeps \<^verbatim>\<open>.gz\<close>.
\<close>

theorem label_of_compressed_keeps_gz:
  "label_of ''data/sample.vcf'' = ''sample''
   \<and> label_of ''data/sample.vcf.gz'' = ''sample.gz''
   \<and> label_of ''data/sample.vcf.gz'' \<noteq> ''sample''
   \<and> labels_of [''data/sample.vcf'', ''data/sample.vcf.gz''] = [''sample'', ''sample.gz'']"
  using label_of_stem(1,2) [of "''sample''" "''data''"]
  by (simp add: labels_of_def)







end
